theory Spec2Isabelle
  imports Main
begin

section \<open>Exceptions\<close>

text \<open>
  The exceptions the three modules raise or let through, as values.  The class
  hierarchy is the one of the \<^verbatim>\<open>requests\<close> library: \<^verbatim>\<open>ConnectTimeout\<close> and
  \<^verbatim>\<open>ReadTimeout\<close> are the \<^verbatim>\<open>Timeout\<close> classes; \<^verbatim>\<open>Timeout\<close>, \<^verbatim>\<open>ConnectionError\<close>,
  \<^verbatim>\<open>RetryError\<close> and \<^verbatim>\<open>HTTPError\<close> are all subclasses of \<^verbatim>\<open>RequestException\<close>.
  An \<^verbatim>\<open>HTTPError\<close> carries the status code of its \<^verbatim>\<open>response\<close> attribute, which is
  \<^verbatim>\<open>None\<close> when the exception was built from a message only.
\<close>

datatype exc =
    ConnectTimeout
  | ReadTimeout
  | ConnectionError
  | RetryError
  | HTTPError "nat option"
  | ValueError string
  | FileNotFoundError string
  | AttributeError
  | KeyError string
  | OSError

fun is_Timeout :: "exc \<Rightarrow> bool" where
  "is_Timeout ConnectTimeout = True"
| "is_Timeout ReadTimeout = True"
| "is_Timeout _ = False"

fun is_HTTPError :: "exc \<Rightarrow> bool" where
  "is_HTTPError (HTTPError _) = True"
| "is_HTTPError _ = False"

fun is_RequestException :: "exc \<Rightarrow> bool" where
  "is_RequestException ConnectTimeout = True"
| "is_RequestException ReadTimeout = True"
| "is_RequestException ConnectionError = True"
| "is_RequestException RetryError = True"
| "is_RequestException (HTTPError _) = True"
| "is_RequestException _ = False"

fun is_ValueError :: "exc \<Rightarrow> bool" where
  "is_ValueError (ValueError _) = True"
| "is_ValueError _ = False"

section \<open>Data model\<close>

text \<open>Parsed JSON values.  Python's \<^verbatim>\<open>None\<close> is \<open>JNull\<close>.\<close>

datatype json =
    JNull
  | JBool bool
  | JNum int
  | JStr string
  | JArr "json list"
  | JObj "(string \<times> json) list"

text \<open>
  The query descriptor: the dictionary \<^verbatim>\<open>query_params\<close>.  The three highlight
  options are present in the full-harvest shape only.
\<close>

record query_params =
  qp_q :: string
  qp_fl :: string
  qp_hl :: string
  qp_hl_fl :: "string option"
  qp_hl_snippets :: "int option"
  qp_hl_fragsize :: "int option"
  qp_rows :: int
  qp_start :: int
  qp_sort :: string

text \<open>
  A document record of \<^verbatim>\<open>response.docs\<close>: the value of its key \<^verbatim>\<open>id\<close> (a string in
  the API's contract; \<open>None\<close> when the key is absent) and its other keys.
\<close>

record doc =
  doc_id :: "string option"
  doc_fields :: "string \<rightharpoonup> json"

text \<open>
  A merged highlight entry (a dictionary from field name to fragments, plus the key
  \<^verbatim>\<open>source\<close>), and the accumulator \<^verbatim>\<open>highlights\<close> keyed by document identifier.
\<close>

type_synonym entry = "string \<rightharpoonup> json"
type_synonym accumulator = "string \<rightharpoonup> entry"

text \<open>
  The parsed body of a page: \<^verbatim>\<open>results_json\<close>.  Every key the code subscripts is
  optional here, so that a missing key is the \<^verbatim>\<open>KeyError\<close> it is in Python.  The values
  have the types of the API's contract: the total is an integer, the documents are a
  list of objects, the highlight mapping is an object of objects keyed by identifier.
\<close>

record solr_response =
  numFound :: "int option"
  docs :: "doc list option"

record results_json =
  response :: "solr_response option"
  highlighting :: "accumulator option"

text \<open>
  What \<^verbatim>\<open>session.get\<close> comes back with: a response (status code, and the body when
  it parses as JSON), or an exception.
\<close>

record http_response =
  status_code :: nat
  body :: "results_json option"

datatype get_outcome = Response http_response | Raises exc

text \<open>What saving to a path runs into: nothing, or an I/O error at one of its steps.\<close>

datatype fs_outcome = FsOk | MkdirFails | OpenFails | DumpFails

text \<open>
  The environment of a run, fixed from outside: the first line of the token file
  \<^verbatim>\<open>local_config_jarmak.py\<close> as code points (\<open>None\<close> when the file does not exist), the remote
  service's answer to the \<open>i\<close>-th GET of the run, and the file system's behaviour
  at each path.
\<close>

record env =
  config_file :: "nat list option"
  session_get :: "nat \<Rightarrow> query_params \<Rightarrow> get_outcome"
  file_system :: "string \<Rightarrow> fs_outcome"

text \<open>The messages the three loggers emit, with the values they interpolate.\<close>

datatype log_msg =
    FailedToGetToken exc
  | InvalidJSONResponse
  | ConnectionTimedOut
  | RequestTimedOut
  | InvalidAPIToken
  | RateLimitExceeded
  | RequestFailedWithStatus nat
  | NetworkError exc
  | SolrQueryFailed exc
  | InvalidResponseFromSolr exc
  | RetryingIn nat
  | HarvestingFirstPage
  | FoundMatches int
  | NoOutputFile
  | HarvestingPage int
  | WaitingBeforeNext nat
  | TimeoutOnPage int nat
  | TooManyTimeouts
  | WaitingAfterTimeout nat
  | FailedToHarvestPage int exc
  | SavedResults string
  | SavedPartialResults nat
  | FailedToSave exc
  | HarvestingFailed exc

text \<open>What a file holds after \<^verbatim>\<open>open(path, "w")\<close>, and after \<^verbatim>\<open>json.dump\<close>.\<close>

datatype file_content = Truncated | Dumped accumulator

text \<open>
  The effects of a run: the GETs sent (oldest first), the calls of the retrying
  transport \<^verbatim>\<open>_make_solr_query\<close>, the sleeps (in seconds), the log, the paths whose
  parent directory was created, the files, and the completed \<^verbatim>\<open>json.dump\<close>s.
\<close>

record world =
  http_gets :: "query_params list"
  page_requests :: "query_params list"
  slept :: "nat list"
  logged :: "log_msg list"
  mkdirs :: "string list"
  files :: "string \<rightharpoonup> file_content"
  dumps :: "(string \<times> accumulator) list"

definition logger :: "log_msg \<Rightarrow> world \<Rightarrow> world" where
  "logger m w = w\<lparr>logged := logged w @ [m]\<rparr>"

definition time_sleep :: "nat \<Rightarrow> world \<Rightarrow> world" where
  "time_sleep d w = w\<lparr>slept := slept w @ [d]\<rparr>"

section \<open>query_solr.py\<close>

text \<open>
  The token line is a Python \<^verbatim>\<open>str\<close>: a list of Unicode code points.  \<^verbatim>\<open>str.strip()\<close>
  removes from both ends the code points for which \<^verbatim>\<open>str.isspace\<close> holds: U+0009 to
  U+000D, U+001C to U+0020, U+0085, U+00A0, U+1680, U+2000 to U+200A, U+2028, U+2029,
  U+202F, U+205F and U+3000.
\<close>

definition is_space :: "nat \<Rightarrow> bool" where
  "is_space c =
     (c \<in> set [0x09, 0x0A, 0x0B, 0x0C, 0x0D, 0x1C, 0x1D, 0x1E, 0x1F, 0x20, 0x85, 0xA0,
                0x1680, 0x2028, 0x2029, 0x202F, 0x205F, 0x3000] \<or>
      (0x2000 \<le> c \<and> c \<le> 0x200A))"

definition strip :: "nat list \<Rightarrow> nat list" where
  "strip s = rev (dropWhile is_space (rev (dropWhile is_space s)))"

definition get_api_token :: "env \<Rightarrow> exc + nat list" where
  "get_api_token E =
     (case config_file E of
        None \<Rightarrow> Inl (FileNotFoundError ''API token config file not found'')
      | Some line \<Rightarrow>
          (let token = strip line in
           if token = [] \<or> length token < 10
           then Inl (ValueError ''Invalid API token format'')
           else Inr token))"

text \<open>\<^verbatim>\<open>response.raise_for_status()\<close>: statuses 400 to 599 raise.\<close>

definition raise_for_status :: "http_response \<Rightarrow> exc option" where
  "raise_for_status r =
     (if 400 \<le> status_code r \<and> status_code r < 600
      then Some (HTTPError (Some (status_code r))) else None)"

text \<open>
  The \<^verbatim>\<open>except\<close> clauses of \<^verbatim>\<open>query_solr\<close>, in their order, applied to an exception
  raised in the \<^verbatim>\<open>try\<close> block: the exception that leaves the function, and the error
  it logs.  The \<^verbatim>\<open>HTTPError\<close> clause reads \<^verbatim>\<open>e.response.status_code\<close>, which is an
  \<^verbatim>\<open>AttributeError\<close> when \<^verbatim>\<open>e.response\<close> is \<^verbatim>\<open>None\<close>.
\<close>

definition query_solr_except :: "exc \<Rightarrow> world \<Rightarrow> exc \<times> world" where
  "query_solr_except e w =
     (if is_Timeout e then
        (e, logger (if e = ConnectTimeout then ConnectionTimedOut else RequestTimedOut) w)
      else if is_HTTPError e then
        (case e of
           HTTPError None \<Rightarrow> (AttributeError, w)
         | HTTPError (Some st) \<Rightarrow>
             if st = 401 then (ValueError ''Invalid API token'', logger InvalidAPIToken w)
             else if st = 429 then (e, logger RateLimitExceeded w)
             else (e, logger (RequestFailedWithStatus st) w)
         | _ \<Rightarrow> (e, w))
      else if is_RequestException e then (e, logger (NetworkError e) w)
      else (e, w))"

definition query_solr :: "env \<Rightarrow> query_params \<Rightarrow> world \<Rightarrow> (exc + http_response) \<times> world" where
  "query_solr E query_params w =
     (case get_api_token E of
        Inl e \<Rightarrow> (Inl e, logger (FailedToGetToken e) w)
      | Inr token \<Rightarrow>
          (let w1 = w\<lparr>http_gets := http_gets w @ [query_params]\<rparr> in
           case session_get E (length (http_gets w)) query_params of
             Raises e \<Rightarrow> (case query_solr_except e w1 of (e', w2) \<Rightarrow> (Inl e', w2))
           | Response r \<Rightarrow>
               (case raise_for_status r of
                  Some e \<Rightarrow> (case query_solr_except e w1 of (e', w2) \<Rightarrow> (Inl e', w2))
                | None \<Rightarrow>
                    (case body r of
                       None \<Rightarrow>
                         (case query_solr_except (HTTPError None) (logger InvalidJSONResponse w1)
                          of (e', w2) \<Rightarrow> (Inl e', w2))
                     | Some _ \<Rightarrow> (Inr r, w1)))))"

section \<open>harvest_highlights.py: the retrying transport call\<close>

text \<open>The body of \<^verbatim>\<open>_make_solr_query\<close>: one attempt.\<close>

definition make_solr_query_attempt ::
  "env \<Rightarrow> query_params \<Rightarrow> world \<Rightarrow> (exc + results_json) \<times> world" where
  "make_solr_query_attempt E query_params w =
     (case query_solr E query_params w of
        (Inl e, w1) \<Rightarrow>
          if is_RequestException e \<or> is_HTTPError e then (Inl e, logger (SolrQueryFailed e) w1)
          else if is_ValueError e then (Inl e, logger (InvalidResponseFromSolr e) w1)
          else (Inl e, w1)
      | (Inr results, w1) \<Rightarrow>
          (case body results of
             None \<Rightarrow>
               (let e = ValueError ''Expecting value'' in (Inl e, logger (InvalidResponseFromSolr e) w1))
           | Some j \<Rightarrow> (Inr j, w1)))"

text \<open>
  The decorator's policy.  \<^verbatim>\<open>retry_if_exception_type((Timeout, RequestException))\<close>;
  \<^verbatim>\<open>stop_after_attempt(5)\<close>; \<^verbatim>\<open>wait_exponential(multiplier=2, min=4, max=60)\<close>, which
  after attempt \<open>n\<close> waits \<open>2 * 2 ^ (n - 1)\<close> seconds, clamped to between 4 and 60.
\<close>

definition retry_if_exception_type :: "exc \<Rightarrow> bool" where
  "retry_if_exception_type e = (is_Timeout e \<or> is_RequestException e)"

definition stop_after_attempt :: "nat \<Rightarrow> bool" where
  "stop_after_attempt attempt_number = (attempt_number \<ge> 5)"

definition wait_exponential :: "nat \<Rightarrow> nat" where
  "wait_exponential attempt_number = max 4 (min (2 * 2 ^ (attempt_number - 1)) 60)"

text \<open>
  The decorated call from attempt \<open>attempt_number\<close> on: an attempt that returns ends
  the call; an exception outside the retry predicate is raised at once; after the last
  attempt the exception of that attempt is raised (\<^verbatim>\<open>reraise=True\<close>); otherwise a
  warning is logged, the call sleeps and the next attempt starts.
\<close>

function retrying ::
  "env \<Rightarrow> query_params \<Rightarrow> nat \<Rightarrow> world \<Rightarrow> (exc + results_json) \<times> world" where
  "retrying E query_params attempt_number w =
     (case make_solr_query_attempt E query_params w of
        (Inr j, w1) \<Rightarrow> (Inr j, w1)
      | (Inl e, w1) \<Rightarrow>
          if \<not> retry_if_exception_type e then (Inl e, w1)
          else if stop_after_attempt attempt_number then (Inl e, w1)
          else retrying E query_params (attempt_number + 1)
                 (time_sleep (wait_exponential attempt_number)
                    (logger (RetryingIn (wait_exponential attempt_number)) w1)))"
  by pat_completeness auto
termination
  by (relation "measure (\<lambda>(E, query_params, attempt_number, w). 5 - attempt_number)")
     (auto simp: stop_after_attempt_def)

definition make_solr_query ::
  "env \<Rightarrow> query_params \<Rightarrow> world \<Rightarrow> (exc + results_json) \<times> world" where
  "make_solr_query E query_params w =
     retrying E query_params 1 (w\<lparr>page_requests := page_requests w @ [query_params]\<rparr>)"

section \<open>harvest_highlights.py: the harvest\<close>

text \<open>The two shapes of the query descriptor.\<close>

definition dry_run_params :: "string \<Rightarrow> query_params" where
  "dry_run_params query_string =
     \<lparr>qp_q = query_string,
      qp_fl = ''author,title,pubyear,doi'',
      qp_hl = ''false'',
      qp_hl_fl = None,
      qp_hl_snippets = None,
      qp_hl_fragsize = None,
      qp_rows = 5,
      qp_start = 0,
      qp_sort = ''score desc''\<rparr>"

definition full_fl :: string where
  "full_fl =
     ''abstract,ack,aff,aff_id,alternate_bibcode,alternate_title,arxiv_class,'' @
     ''author,author_count,author_norm,bibcode,bibgroup,bibstem,citation,'' @
     ''citation_count,cite_read_boost,classic_factor,comment,copyright,data,'' @
     ''database,date,doctype,doi,eid,entdate,entry_date,esources,facility,'' @
     ''first_author,first_author_norm,grant,grant_agencies,grant_id,id,'' @
     ''identifier,indexstamp,inst,isbn,issn,issue,keyword,keyword_norm,'' @
     ''keyword_schema,lang,links_data,nedid,nedtype,orcid_pub,orcid_other,'' @
     ''orcid_user,page,page_count,page_range,property,pub,pub_raw,pubdate,'' @
     ''pubnote,read_count,reference,simbid,title,vizier,volume,year''"

definition full_params :: "string \<Rightarrow> int \<Rightarrow> query_params" where
  "full_params query_string max_num_rows =
     \<lparr>qp_q = query_string,
      qp_fl = full_fl,
      qp_hl = ''true'',
      qp_hl_fl = Some ''body,abstract,ack,title'',
      qp_hl_snippets = Some 4,
      qp_hl_fragsize = Some 100,
      qp_rows = max_num_rows,
      qp_start = 0,
      qp_sort = ''score desc''\<rparr>"

text \<open>
  \<^verbatim>\<open>doc[k]\<close> for each key of a list, in order: the first missing key is the
  \<^verbatim>\<open>KeyError\<close>.  \<^verbatim>\<open>doc.get(k)\<close> gives \<^verbatim>\<open>None\<close> for a missing key.
\<close>

fun getitems :: "(string \<rightharpoonup> json) \<Rightarrow> string list \<Rightarrow> exc + (string \<times> json) list" where
  "getitems d [] = Inr []"
| "getitems d (k # ks) =
     (case d k of
        None \<Rightarrow> Inl (KeyError k)
      | Some v \<Rightarrow> (case getitems d ks of Inl e \<Rightarrow> Inl e | Inr kvs \<Rightarrow> Inr ((k, v) # kvs)))"

definition dict_get :: "(string \<rightharpoonup> json) \<Rightarrow> string \<Rightarrow> json" where
  "dict_get d k = (case d k of None \<Rightarrow> JNull | Some v \<Rightarrow> v)"

text \<open>The dictionary assigned to \<^verbatim>\<open>highlights[doc_id]['source']\<close>.\<close>

definition source_of :: "doc \<Rightarrow> exc + json" where
  "source_of d =
     (case getitems (doc_fields d)
             [''bibcode'', ''title'', ''author'', ''pubdate'', ''doctype'', ''property''] of
        Inl e \<Rightarrow> Inl e
      | Inr kvs \<Rightarrow>
          Inr (JObj (kvs @ [(''doi'', dict_get (doc_fields d) ''doi''),
                            (''grant'', dict_get (doc_fields d) ''grant'')])))"

text \<open>
  The loop over the documents of a page (the same loop after the first page and
  after every later one): an entry is created when the identifier has none, and its
  key \<^verbatim>\<open>source\<close> is assigned.
\<close>

fun add_source_information :: "doc list \<Rightarrow> accumulator \<Rightarrow> exc + accumulator" where
  "add_source_information [] highlights = Inr highlights"
| "add_source_information (d # ds) highlights =
     (case doc_id d of
        None \<Rightarrow> Inl (KeyError ''id'')
      | Some i \<Rightarrow>
          (let highlights1 = (if highlights i = None then highlights(i \<mapsto> Map.empty) else highlights);
               entry = (case highlights1 i of None \<Rightarrow> Map.empty | Some en \<Rightarrow> en)
           in case source_of d of
                Inl e \<Rightarrow> Inl e
              | Inr src \<Rightarrow> add_source_information ds (highlights1(i \<mapsto> entry(''source'' \<mapsto> src)))))"

text \<open>\<^verbatim>\<open>results_json['response']['numFound']\<close> and \<^verbatim>\<open>results_json['response']['docs']\<close>.\<close>

definition get_numFound :: "results_json \<Rightarrow> exc + int" where
  "get_numFound results_json =
     (case response results_json of
        None \<Rightarrow> Inl (KeyError ''response'')
      | Some r \<Rightarrow> (case numFound r of None \<Rightarrow> Inl (KeyError ''numFound'') | Some n \<Rightarrow> Inr n))"

definition get_docs :: "results_json \<Rightarrow> exc + doc list" where
  "get_docs results_json =
     (case response results_json of
        None \<Rightarrow> Inl (KeyError ''response'')
      | Some r \<Rightarrow> (case docs r of None \<Rightarrow> Inl (KeyError ''docs'') | Some ds \<Rightarrow> Inr ds))"

text \<open>
  Processing the first page: \<^verbatim>\<open>highlights = results_json['highlighting']\<close>, then the
  loop over its documents.
\<close>

definition first_page :: "results_json \<Rightarrow> exc + accumulator" where
  "first_page results_json =
     (case highlighting results_json of
        None \<Rightarrow> Inl (KeyError ''highlighting'')
      | Some h \<Rightarrow>
          (case get_docs results_json of
             Inl e \<Rightarrow> Inl e
           | Inr ds \<Rightarrow> add_source_information ds h))"

text \<open>
  Processing a later page: \<^verbatim>\<open>highlights.update(results_json['highlighting'])\<close>, then
  the loop over its documents.
\<close>

definition later_page :: "results_json \<Rightarrow> accumulator \<Rightarrow> exc + accumulator" where
  "later_page results_json highlights =
     (case highlighting results_json of
        None \<Rightarrow> Inl (KeyError ''highlighting'')
      | Some h \<Rightarrow>
          (case get_docs results_json of
             Inl e \<Rightarrow> Inl e
           | Inr ds \<Rightarrow> add_source_information ds (highlights ++ h)))"

text \<open>
  One iteration of the paging loop, entered with the loop condition true.  It ends in
  \<open>Continue\<close> (back to the loop condition, with the new page index, counter and
  accumulator), in \<open>Break\<close>, or in an exception that leaves the loop.
\<close>

datatype step =
    Continue int nat accumulator world
  | Break nat accumulator world
  | Raise exc world

definition max_consecutive_timeouts :: nat where
  "max_consecutive_timeouts = 3"

definition loop_body ::
  "env \<Rightarrow> query_params \<Rightarrow> int \<Rightarrow> nat \<Rightarrow> accumulator \<Rightarrow> world \<Rightarrow> step" where
  "loop_body E query_params page consecutive_timeouts highlights w =
     (case make_solr_query E (query_params\<lparr>qp_start := page * qp_rows query_params\<rparr>)
             (logger (HarvestingPage page) w) of
        (Inr results_json, w1) \<Rightarrow>
          (case later_page results_json highlights of
             Inl e \<Rightarrow> Raise e w1
           | Inr highlights' \<Rightarrow>
               (let consecutive_timeouts' = 0;
                    delay = 2 + consecutive_timeouts' * 1
                in Continue (page + 1) consecutive_timeouts' highlights'
                     (time_sleep delay (logger (WaitingBeforeNext delay) w1))))
      | (Inl e, w1) \<Rightarrow>
          if is_Timeout e then
            (let consecutive_timeouts' = consecutive_timeouts + 1;
                 w2 = logger (TimeoutOnPage page consecutive_timeouts') w1
             in if consecutive_timeouts' \<ge> max_consecutive_timeouts
                then Break consecutive_timeouts' highlights (logger TooManyTimeouts w2)
                else (let delay = 5 * consecutive_timeouts'
                      in Continue page consecutive_timeouts' highlights
                           (time_sleep delay (logger (WaitingAfterTimeout delay) w2))))
          else if is_RequestException e \<or> is_HTTPError e
          then Raise e (logger (FailedToHarvestPage page e) w1)
          else Raise e w1)"

text \<open>
  The paging loop.  The loop assigns \<^verbatim>\<open>query_params['start']\<close> afresh at the top of
  every iteration and changes no other key, so the descriptor is not threaded through.
  The result is the exception that left the loop, or the accumulator and the counter
  the save step goes on with.
\<close>

function paging_loop ::
  "env \<Rightarrow> query_params \<Rightarrow> int \<Rightarrow> int \<Rightarrow> int \<Rightarrow> nat \<Rightarrow> accumulator \<Rightarrow> world
     \<Rightarrow> (exc + accumulator \<times> nat) \<times> world" where
  "paging_loop E query_params max_num_queries total_matches page consecutive_timeouts highlights w =
     (if page < max_num_queries \<and> page * qp_rows query_params < total_matches then
        (case loop_body E query_params page consecutive_timeouts highlights w of
           Continue page' consecutive_timeouts' highlights' w' \<Rightarrow>
             paging_loop E query_params max_num_queries total_matches page' consecutive_timeouts' highlights' w'
         | Break consecutive_timeouts' highlights' w' \<Rightarrow> (Inr (highlights', consecutive_timeouts'), w')
         | Raise e w' \<Rightarrow> (Inl e, w'))
      else (Inr (highlights, consecutive_timeouts), w))"
  by pat_completeness auto
termination
  by (relation "measures [\<lambda>(E, qp, N, total_matches, page, ct, hl, w). nat (N - page),
                          \<lambda>(E, qp, N, total_matches, page, ct, hl, w). max_consecutive_timeouts - ct]")
     (auto simp: loop_body_def Let_def max_consecutive_timeouts_def
           split: prod.splits sum.splits if_splits)

text \<open>
  The same loop run for at most \<open>fuel\<close> evaluations of its condition: \<open>None\<close> when
  they do not suffice.  It assumes nothing about whether the loop ends.
\<close>

fun paging_loop_fuel ::
  "nat \<Rightarrow> env \<Rightarrow> query_params \<Rightarrow> int \<Rightarrow> int \<Rightarrow> int \<Rightarrow> nat \<Rightarrow> accumulator \<Rightarrow> world
     \<Rightarrow> ((exc + accumulator \<times> nat) \<times> world) option" where
  "paging_loop_fuel 0 E query_params max_num_queries total_matches page consecutive_timeouts
     highlights w = None"
| "paging_loop_fuel (Suc fuel) E query_params max_num_queries total_matches page
     consecutive_timeouts highlights w =
     (if page < max_num_queries \<and> page * qp_rows query_params < total_matches then
        (case loop_body E query_params page consecutive_timeouts highlights w of
           Continue page' consecutive_timeouts' highlights' w' \<Rightarrow>
             paging_loop_fuel fuel E query_params max_num_queries total_matches page'
               consecutive_timeouts' highlights' w'
         | Break consecutive_timeouts' highlights' w' \<Rightarrow>
             Some (Inr (highlights', consecutive_timeouts'), w')
         | Raise e w' \<Rightarrow> Some (Inl e, w'))
      else Some (Inr (highlights, consecutive_timeouts), w))"

text \<open>
  The save step: the parent directory is created, the file is opened for writing and
  the accumulator is dumped into it; an \<^verbatim>\<open>IOError\<close> at any of the three is logged and
  raised again.
\<close>

definition save_results ::
  "env \<Rightarrow> string \<Rightarrow> accumulator \<Rightarrow> nat \<Rightarrow> world \<Rightarrow> (exc + unit) \<times> world" where
  "save_results E save_path highlights consecutive_timeouts w =
     (case file_system E save_path of
        MkdirFails \<Rightarrow> (Inl OSError, logger (FailedToSave OSError) w)
      | OpenFails \<Rightarrow>
          (Inl OSError, logger (FailedToSave OSError) (w\<lparr>mkdirs := mkdirs w @ [save_path]\<rparr>))
      | DumpFails \<Rightarrow>
          (Inl OSError,
           logger (FailedToSave OSError)
             (w\<lparr>mkdirs := mkdirs w @ [save_path],
                files := (files w)(save_path \<mapsto> Truncated)\<rparr>))
      | FsOk \<Rightarrow>
          (let w1 = logger (SavedResults save_path)
                      (w\<lparr>mkdirs := mkdirs w @ [save_path],
                         files := (files w)(save_path \<mapsto> Dumped highlights),
                         dumps := dumps w @ [(save_path, highlights)]\<rparr>)
           in (Inr (),
               if consecutive_timeouts > 0
               then logger (SavedPartialResults consecutive_timeouts) w1 else w1)))"

text \<open>The body of the outer \<^verbatim>\<open>try\<close> of \<^verbatim>\<open>harvest_highlights\<close>.\<close>

definition harvest_try ::
  "env \<Rightarrow> query_params \<Rightarrow> string option \<Rightarrow> int \<Rightarrow> world \<Rightarrow> (exc + unit) \<times> world" where
  "harvest_try E query_params save_path max_num_queries w =
     (case make_solr_query E query_params (logger HarvestingFirstPage w) of
        (Inl e, w1) \<Rightarrow> (Inl e, w1)
      | (Inr results_json, w1) \<Rightarrow>
          (case get_numFound results_json of
             Inl e \<Rightarrow> (Inl e, w1)
           | Inr total_matches \<Rightarrow>
               (let w2 = logger (FoundMatches total_matches) w1 in
                case save_path of
                  None \<Rightarrow> (Inr (), logger NoOutputFile w2)
                | Some path \<Rightarrow>
                    (case first_page results_json of
                       Inl e \<Rightarrow> (Inl e, w2)
                     | Inr highlights \<Rightarrow>
                         (case paging_loop E query_params max_num_queries total_matches 1 0 highlights w2 of
                            (Inl e, w3) \<Rightarrow> (Inl e, w3)
                          | (Inr (highlights', consecutive_timeouts), w3) \<Rightarrow>
                              save_results E path highlights' consecutive_timeouts w3)))))"

text \<open>
  \<^verbatim>\<open>harvest_highlights\<close>: the check of the page size, the descriptor, the \<^verbatim>\<open>try\<close>
  block, and the outer \<^verbatim>\<open>except Exception\<close>, which logs and raises again.
\<close>

definition harvest_highlights ::
  "env \<Rightarrow> string \<Rightarrow> string option \<Rightarrow> int \<Rightarrow> int \<Rightarrow> world \<Rightarrow> (exc + unit) \<times> world" where
  "harvest_highlights E query_string save_path max_num_queries max_num_rows w =
     (if max_num_rows > 2000 then (Inl (ValueError ''max_num_rows cannot exceed 2000''), w)
      else
        (let query_params = (case save_path of
                               None \<Rightarrow> dry_run_params query_string
                             | Some _ \<Rightarrow> full_params query_string max_num_rows)
         in case harvest_try E query_params save_path max_num_queries w of
              (Inl e, w') \<Rightarrow> (Inl e, logger (HarvestingFailed e) w')
            | (Inr u, w') \<Rightarrow> (Inr u, w')))"


definition doc_ids :: "doc list \<Rightarrow> string set" where
  "doc_ids ds = {i. \<exists>d \<in> set ds. doc_id d = Some i}"



text \<open>
  A page that the harvest processes without a \<^verbatim>\<open>KeyError\<close>: it has the keys the code
  subscripts, and each of its documents has an identifier and the six fields that are
  read with \<^verbatim>\<open>doc[...]\<close>.
\<close>

definition doc_ok :: "doc \<Rightarrow> bool" where
  "doc_ok d =
     (doc_id d \<noteq> None \<and>
      list_all (\<lambda>k. doc_fields d k \<noteq> None)
        [''bibcode'', ''title'', ''author'', ''pubdate'', ''doctype'', ''property''])"

definition page_ok :: "results_json \<Rightarrow> bool" where
  "page_ok results_json =
     ((case response results_json of
         None \<Rightarrow> False
       | Some r \<Rightarrow> numFound r \<noteq> None \<and> (case docs r of None \<Rightarrow> False | Some ds \<Rightarrow> list_all doc_ok ds)) \<and>
      highlighting results_json \<noteq> None)"

section \<open>Example runs\<close>

text \<open>
  A world in which nothing has happened yet, a well-formed document and page, and an
  environment with a valid token that answers the \<open>i\<close>-th GET from a script.
\<close>

definition fresh_world :: world where
  "fresh_world = \<lparr>http_gets = [], page_requests = [], slept = [], logged = [], mkdirs = [],
                   files = Map.empty, dumps = []\<rparr>"

definition example_doc :: "string \<Rightarrow> doc" where
  "example_doc i =
     \<lparr>doc_id = Some i,
      doc_fields = [''bibcode'' \<mapsto> JStr i, ''title'' \<mapsto> JArr [JStr ''T''], ''author'' \<mapsto> JArr [],
                    ''pubdate'' \<mapsto> JStr ''2020-01-00'', ''doctype'' \<mapsto> JStr ''article'',
                    ''property'' \<mapsto> JArr []]\<rparr>"

definition example_page :: "int \<Rightarrow> string \<Rightarrow> results_json" where
  "example_page n i =
     \<lparr>response = Some \<lparr>numFound = Some n, docs = Some [example_doc i]\<rparr>,
      highlighting = Some [i \<mapsto> [''body'' \<mapsto> JArr [JStr ''PDS'']]]\<rparr>"

definition ok_response :: "results_json \<Rightarrow> get_outcome" where
  "ok_response j = Response \<lparr>status_code = 200, body = Some j\<rparr>"

definition status_response :: "nat \<Rightarrow> get_outcome" where
  "status_response st = Response \<lparr>status_code = st, body = None\<rparr>"

definition example_token :: "nat list" where
  "example_token = [48, 49, 50, 51, 52, 53, 54, 55, 56, 57, 97, 98, 99, 100, 101, 102]"

definition scripted_env :: "(nat \<Rightarrow> get_outcome) \<Rightarrow> fs_outcome \<Rightarrow> env" where
  "scripted_env answers fso =
     \<lparr>config_file = Some example_token, session_get = (\<lambda>i qp. answers i),
      file_system = (\<lambda>p. fso)\<rparr>"





text \<open>The world an iteration of the loop ends in.\<close>

fun world_of :: "step \<Rightarrow> world" where
  "world_of (Continue p c h w) = w"
| "world_of (Break c h w) = w"
| "world_of (Raise e w) = w"

section \<open>Effects of the transport calls\<close>

declare retrying.simps [simp del]
declare paging_loop.simps [simp del]

lemmas run_defs =
  make_solr_query_def retrying.simps make_solr_query_attempt_def query_solr_def
  query_solr_except_def raise_for_status_def status_response_def ok_response_def scripted_env_def
  retry_if_exception_type_def stop_after_attempt_def wait_exponential_def fresh_world_def
  logger_def time_sleep_def Let_def get_api_token_def strip_def is_space_def example_token_def
  harvest_highlights_def harvest_try_def paging_loop.simps loop_body_def
  max_consecutive_timeouts_def save_results_def first_page_def later_page_def get_docs_def
  get_numFound_def source_of_def dict_get_def example_page_def example_doc_def
  dry_run_params_def full_params_def

lemma logger_simps [simp]:
  "http_gets (logger m w) = http_gets w"
  "page_requests (logger m w) = page_requests w"
  "slept (logger m w) = slept w"
  "logged (logger m w) = logged w @ [m]"
  "mkdirs (logger m w) = mkdirs w"
  "files (logger m w) = files w"
  "dumps (logger m w) = dumps w"
  by (simp_all add: logger_def)

lemma time_sleep_simps [simp]:
  "http_gets (time_sleep d w) = http_gets w"
  "page_requests (time_sleep d w) = page_requests w"
  "slept (time_sleep d w) = slept w @ [d]"
  "logged (time_sleep d w) = logged w"
  "mkdirs (time_sleep d w) = mkdirs w"
  "files (time_sleep d w) = files w"
  "dumps (time_sleep d w) = dumps w"
  by (simp_all add: time_sleep_def)

lemma query_solr_except_frame:
  "query_solr_except e w = (e', w') \<Longrightarrow>
     http_gets w' = http_gets w \<and> page_requests w' = page_requests w \<and> slept w' = slept w \<and>
     mkdirs w' = mkdirs w \<and> files w' = files w \<and> dumps w' = dumps w"
  by (auto simp: query_solr_except_def split: if_splits exc.splits option.splits)

lemma query_solr_frame:
  "query_solr E qp w = (r, w') \<Longrightarrow>
     page_requests w' = page_requests w \<and> slept w' = slept w \<and>
     mkdirs w' = mkdirs w \<and> files w' = files w \<and> dumps w' = dumps w"
  by (auto simp: query_solr_def Let_def dest!: query_solr_except_frame
           split: sum.splits get_outcome.splits option.splits prod.splits)

lemma attempt_frame:
  "make_solr_query_attempt E qp w = (r, w') \<Longrightarrow>
     page_requests w' = page_requests w \<and> slept w' = slept w \<and>
     mkdirs w' = mkdirs w \<and> files w' = files w \<and> dumps w' = dumps w"
  by (auto simp: make_solr_query_attempt_def Let_def dest!: query_solr_frame
           split: sum.splits option.splits prod.splits if_splits)

lemma retrying_frame:
  "retrying E qp n w = (r, w') \<Longrightarrow>
     page_requests w' = page_requests w \<and>
     mkdirs w' = mkdirs w \<and> files w' = files w \<and> dumps w' = dumps w"
proof (induction E qp n w rule: retrying.induct)
  case (1 E qp n w)
  obtain r1 w1 where a: "make_solr_query_attempt E qp w = (r1, w1)"
    by (cases "make_solr_query_attempt E qp w")
  note f = attempt_frame [OF a]
  show ?case
  proof (cases r1)
    case (Inr j)
    with a "1.prems" f show ?thesis by (simp add: retrying.simps [of E qp n w])
  next
    case (Inl e)
    show ?thesis
    proof (cases "retry_if_exception_type e \<and> \<not> stop_after_attempt n")
      case False
      with a Inl "1.prems" f show ?thesis
        by (auto simp: retrying.simps [of E qp n w] split: if_splits)
    next
      case True
      with a Inl "1.prems" have
        "retrying E qp (n + 1)
           (time_sleep (wait_exponential n) (logger (RetryingIn (wait_exponential n)) w1)) = (r, w')"
        by (simp add: retrying.simps [of E qp n w])
      from "1.IH" [OF a [symmetric] Inl _ _ this] True f show ?thesis by simp
    qed
  qed
qed

lemma make_solr_query_frame:
  "make_solr_query E qp w = (r, w') \<Longrightarrow>
     page_requests w' = page_requests w @ [qp] \<and>
     mkdirs w' = mkdirs w \<and> files w' = files w \<and> dumps w' = dumps w"
  by (auto simp: make_solr_query_def dest!: retrying_frame)



section \<open>Effects of the paging loop\<close>

lemma loop_body_frame:
  "mkdirs (world_of (loop_body E qp page ct hl w)) = mkdirs w \<and>
   files (world_of (loop_body E qp page ct hl w)) = files w \<and>
   dumps (world_of (loop_body E qp page ct hl w)) = dumps w \<and>
   page_requests (world_of (loop_body E qp page ct hl w)) =
     page_requests w @ [qp\<lparr>qp_start := page * qp_rows qp\<rparr>]"
proof -
  obtain r w1 where m: "make_solr_query E (qp\<lparr>qp_start := page * qp_rows qp\<rparr>)
                          (logger (HarvestingPage page) w) = (r, w1)"
    by (cases "make_solr_query E (qp\<lparr>qp_start := page * qp_rows qp\<rparr>)
                 (logger (HarvestingPage page) w)")
  from make_solr_query_frame [OF m] m show ?thesis
    by (auto simp: loop_body_def Let_def split: sum.splits)
qed

lemma paging_loop_exit:
  "\<not> (page < N \<and> page * qp_rows qp < T) \<Longrightarrow>
     paging_loop E qp N T page ct hl w = (Inr (hl, ct), w)"
  by (subst paging_loop.simps) auto

lemma paging_loop_iterate:
  "page < N \<Longrightarrow> page * qp_rows qp < T \<Longrightarrow>
     paging_loop E qp N T page ct hl w =
       (case loop_body E qp page ct hl w of
          Continue page' ct' hl' w' \<Rightarrow> paging_loop E qp N T page' ct' hl' w'
        | Break ct' hl' w' \<Rightarrow> (Inr (hl', ct'), w')
        | Raise e w' \<Rightarrow> (Inl e, w'))"
  by (simp add: paging_loop.simps [of E qp N T page ct hl w])

lemma paging_loop_frame:
  "paging_loop E qp N T page ct hl w = (r, w') \<Longrightarrow>
     mkdirs w' = mkdirs w \<and> files w' = files w \<and> dumps w' = dumps w \<and>
     (\<exists>rest. page_requests w' = page_requests w @ rest)"
proof (induction E qp N T page ct hl w rule: paging_loop.induct)
  case (1 E qp N T page ct hl w)
  show ?case
  proof (cases "page < N \<and> page * qp_rows qp < T")
    case False
    with "1.prems" show ?thesis by (simp add: paging_loop_exit)
  next
    case True
    note f = loop_body_frame [of E qp page ct hl w]
    show ?thesis
    proof (cases "loop_body E qp page ct hl w")
      case (Continue p c h w1)
      with True "1.prems" have "paging_loop E qp N T p c h w1 = (r, w')"
        by (simp add: paging_loop_iterate)
      from "1.IH" [OF True Continue this] f Continue show ?thesis by auto
    next
      case (Break c h w1)
      with True "1.prems" f show ?thesis
        by (auto simp: paging_loop_iterate)
    next
      case (Raise e w1)
      with True "1.prems" f show ?thesis
        by (auto simp: paging_loop_iterate)
    qed
  qed
qed

lemma loop_body_success:
  "make_solr_query E (qp\<lparr>qp_start := page * qp_rows qp\<rparr>) (logger (HarvestingPage page) w) = (Inr rj, w1)
   \<Longrightarrow> later_page rj hl = Inr hl'
   \<Longrightarrow> loop_body E qp page ct hl w =
         Continue (page + 1) 0 hl' (time_sleep 2 (logger (WaitingBeforeNext 2) w1))"
  by (simp add: loop_body_def)

lemma loop_body_bad_page:
  "make_solr_query E (qp\<lparr>qp_start := page * qp_rows qp\<rparr>) (logger (HarvestingPage page) w) = (Inr rj, w1)
   \<Longrightarrow> later_page rj hl = Inl e
   \<Longrightarrow> loop_body E qp page ct hl w = Raise e w1"
  by (simp add: loop_body_def)

lemma loop_body_timeout_retry:
  "make_solr_query E (qp\<lparr>qp_start := page * qp_rows qp\<rparr>) (logger (HarvestingPage page) w) = (Inl e, w1)
   \<Longrightarrow> is_Timeout e \<Longrightarrow> ct + 1 < 3
   \<Longrightarrow> loop_body E qp page ct hl w =
         Continue page (ct + 1) hl
           (time_sleep (5 * (ct + 1)) (logger (WaitingAfterTimeout (5 * (ct + 1)))
              (logger (TimeoutOnPage page (ct + 1)) w1)))"
  by (simp add: loop_body_def max_consecutive_timeouts_def Let_def)

lemma loop_body_timeout_break:
  "make_solr_query E (qp\<lparr>qp_start := page * qp_rows qp\<rparr>) (logger (HarvestingPage page) w) = (Inl e, w1)
   \<Longrightarrow> is_Timeout e \<Longrightarrow> 3 \<le> ct + 1
   \<Longrightarrow> loop_body E qp page ct hl w =
         Break (ct + 1) hl (logger TooManyTimeouts (logger (TimeoutOnPage page (ct + 1)) w1))"
  by (simp add: loop_body_def max_consecutive_timeouts_def)

lemma loop_body_hard_failure:
  "make_solr_query E (qp\<lparr>qp_start := page * qp_rows qp\<rparr>) (logger (HarvestingPage page) w) = (Inl e, w1)
   \<Longrightarrow> \<not> is_Timeout e
   \<Longrightarrow> loop_body E qp page ct hl w =
         Raise e (if is_RequestException e \<or> is_HTTPError e
                  then logger (FailedToHarvestPage page e) w1 else w1)"
  by (simp add: loop_body_def)

lemma loop_body_Continue:
  "loop_body E qp page ct hl w = Continue page' ct' hl' w' \<Longrightarrow>
     (page' = page + 1 \<and> ct' = 0) \<or> (page' = page \<and> ct' = ct + 1 \<and> ct' < 3 \<and> hl' = hl)"
  by (auto simp: loop_body_def Let_def max_consecutive_timeouts_def
           split: prod.splits sum.splits if_splits)

lemma loop_body_Break:
  "loop_body E qp page ct hl w = Break ct' hl' w' \<Longrightarrow> ct' = ct + 1 \<and> 3 \<le> ct' \<and> hl' = hl"
  by (auto simp: loop_body_def Let_def max_consecutive_timeouts_def
           split: prod.splits sum.splits if_splits)

lemma paging_loop_fuel_enough:
  "3 * nat (N - page) - min ct 2 < fuel \<Longrightarrow>
     paging_loop_fuel fuel E qp N T page ct hl w = Some (paging_loop E qp N T page ct hl w)"
proof (induction E qp N T page ct hl w arbitrary: fuel rule: paging_loop.induct)
  case (1 E qp N T page ct hl w)
  from "1.prems" obtain k where fuel: "fuel = Suc k" by (cases fuel) auto
  show ?case
  proof (cases "page < N \<and> page * qp_rows qp < T")
    case False
    then show ?thesis by (auto simp: fuel paging_loop_exit)
  next
    case True
    show ?thesis
    proof (cases "loop_body E qp page ct hl w")
      case (Continue p c h w1)
      from loop_body_Continue [OF Continue] True "1.prems" fuel
      have "3 * nat (N - p) - min c 2 < k" by auto
      from "1.IH" [OF True Continue this] True Continue show ?thesis
        by (simp add: fuel paging_loop_iterate)
    next
      case (Break c h w1)
      with True show ?thesis by (simp add: fuel paging_loop_iterate)
    next
      case (Raise e w1)
      with True show ?thesis by (simp add: fuel paging_loop_iterate)
    qed
  qed
qed

section \<open>Effects of the save step, and the harvest after its first page\<close>

lemma save_results_page_requests:
  "page_requests (snd (save_results E path hl ct w)) = page_requests w"
  by (simp add: save_results_def Let_def split: fs_outcome.splits)

lemma save_results_ok:
  "file_system E path = FsOk \<Longrightarrow>
     fst (save_results E path hl ct w) = Inr () \<and>
     dumps (snd (save_results E path hl ct w)) = dumps w @ [(path, hl)] \<and>
     files (snd (save_results E path hl ct w)) = (files w)(path \<mapsto> Dumped hl) \<and>
     mkdirs (snd (save_results E path hl ct w)) = mkdirs w @ [path]"
  by (simp add: save_results_def Let_def)

lemma save_results_fails:
  "file_system E path \<noteq> FsOk \<Longrightarrow>
     fst (save_results E path hl ct w) = Inl OSError \<and>
     dumps (snd (save_results E path hl ct w)) = dumps w"
  by (cases "file_system E path") (simp_all add: save_results_def)

lemma harvest_after_first_page:
  assumes "max_num_rows \<le> 2000"
    and "make_solr_query E (full_params q max_num_rows) (logger HarvestingFirstPage w) = (Inr rj, wa)"
    and "get_numFound rj = Inr T" and "first_page rj = Inr ha"
  shows "harvest_highlights E q (Some path) N max_num_rows w =
           (case paging_loop E (full_params q max_num_rows) N T 1 0 ha (logger (FoundMatches T) wa) of
              (Inl e, wb) \<Rightarrow> (Inl e, logger (HarvestingFailed e) wb)
            | (Inr (hl, ct), wb) \<Rightarrow>
                (case save_results E path hl ct wb of
                   (Inl e, wc) \<Rightarrow> (Inl e, logger (HarvestingFailed e) wc)
                 | (Inr u, wc) \<Rightarrow> (Inr u, wc)))"
  using assms
  by (simp add: harvest_highlights_def harvest_try_def Let_def split: prod.splits sum.splits)

section \<open>The retrying transport call\<close>

text \<open>
  Claim C3.  The claim says that an error status outside the retry set is not retried
  and leaves the retrying transport call on the first attempt.  In the code an
  \<^verbatim>\<open>HTTPError\<close> is a \<^verbatim>\<open>RequestException\<close>, which the retry predicate accepts: when the
  service answers every GET with status 404, the call makes five attempts, sleeping 4,
  4, 8 and 16 seconds between them, before the \<^verbatim>\<open>HTTPError\<close> of the fifth leaves it.
\<close>

theorem status_error_is_retried:
  "fst (make_solr_query (scripted_env (\<lambda>i. status_response 404) FsOk)
          (dry_run_params ''x'') fresh_world) = Inl (HTTPError (Some 404)) \<and>
   length (http_gets (snd (make_solr_query (scripted_env (\<lambda>i. status_response 404) FsOk)
          (dry_run_params ''x'') fresh_world))) = 5 \<and>
   slept (snd (make_solr_query (scripted_env (\<lambda>i. status_response 404) FsOk)
          (dry_run_params ''x'') fresh_world)) = [4, 4, 8, 16]"
  by (simp add: run_defs)

section \<open>The page-size ceiling\<close>

text \<open>
  Claim C8.  With \<^verbatim>\<open>max_num_rows\<close> above 2000, in either mode, the call raises the
  \<^verbatim>\<open>ValueError\<close> of the precondition and leaves the world as it found it: no request
  is made.  With \<^verbatim>\<open>max_num_rows\<close> of at most 2000 the check raises nothing: the call
  goes on to issue its first page request, with the descriptor of its mode.
\<close>

theorem page_size_ceiling:
  "(2000 < max_num_rows \<longrightarrow>
      harvest_highlights E query_string save_path max_num_queries max_num_rows w =
        (Inl (ValueError ''max_num_rows cannot exceed 2000''), w)) \<and>
   (max_num_rows \<le> 2000 \<longrightarrow>
      (\<exists>rest. page_requests
                (snd (harvest_highlights E query_string save_path max_num_queries max_num_rows w)) =
              page_requests w @
                (case save_path of None \<Rightarrow> dry_run_params query_string
                                 | Some _ \<Rightarrow> full_params query_string max_num_rows) # rest))"
proof (intro conjI impI)
  assume "2000 < max_num_rows"
  then show "harvest_highlights E query_string save_path max_num_queries max_num_rows w =
        (Inl (ValueError ''max_num_rows cannot exceed 2000''), w)"
    by (simp add: harvest_highlights_def)
next
  assume le: "max_num_rows \<le> 2000"
  define qp where "qp = (case save_path of None \<Rightarrow> dry_run_params query_string
                                 | Some _ \<Rightarrow> full_params query_string max_num_rows)"
  obtain r1 w1 where m: "make_solr_query E qp (logger HarvestingFirstPage w) = (r1, w1)"
    by (cases "make_solr_query E qp (logger HarvestingFirstPage w)")
  have p1: "page_requests w1 = page_requests w @ [qp]"
    using make_solr_query_frame [OF m] by simp
  have "\<exists>rest. page_requests (snd (harvest_try E qp save_path max_num_queries w)) =
          page_requests w @ qp # rest"
  proof (cases r1)
    case (Inl e)
    with m p1 show ?thesis by (simp add: harvest_try_def)
  next
    case (Inr rj)
    show ?thesis
    proof (cases "get_numFound rj")
      case (Inl e)
      with m p1 Inr show ?thesis by (simp add: harvest_try_def)
    next
      case t: (Inr T)
      show ?thesis
      proof (cases save_path)
        case None
        with m p1 Inr t show ?thesis by (simp add: harvest_try_def)
      next
        case (Some path)
        show ?thesis
        proof (cases "first_page rj")
          case (Inl e)
          with m p1 Inr t Some show ?thesis by (simp add: harvest_try_def)
        next
          case h: (Inr ha)
          obtain r3 w3 where
            l: "paging_loop E qp max_num_queries T 1 0 ha (logger (FoundMatches T) w1) = (r3, w3)"
            by (cases "paging_loop E qp max_num_queries T 1 0 ha (logger (FoundMatches T) w1)")
          from paging_loop_frame [OF l] obtain rest where
            "page_requests w3 = page_requests w @ qp # rest" using p1 by auto
          with m Inr t Some h l show ?thesis
            by (cases r3) (auto simp: harvest_try_def save_results_page_requests split: prod.splits)
        qed
      qed
    qed
  qed
  then show "\<exists>rest. page_requests
                (snd (harvest_highlights E query_string save_path max_num_queries max_num_rows w)) =
              page_requests w @
                (case save_path of None \<Rightarrow> dry_run_params query_string
                                 | Some _ \<Rightarrow> full_params query_string max_num_rows) # rest"
    using le by (auto simp: harvest_highlights_def qp_def Let_def split: prod.splits sum.splits)
qed

theorem page_size_ceiling_witness:
  "harvest_highlights (scripted_env (\<lambda>i. ok_response (example_page 17 ''a'')) FsOk)
        ''x'' (Some ''out.json'') 3 2001 fresh_world =
      (Inl (ValueError ''max_num_rows cannot exceed 2000''), fresh_world) \<and>
   harvest_highlights (scripted_env (\<lambda>i. ok_response (example_page 17 ''a'')) FsOk)
        ''x'' None 3 2001 fresh_world =
      (Inl (ValueError ''max_num_rows cannot exceed 2000''), fresh_world) \<and>
   (\<exists>rest. page_requests
        (snd (harvest_highlights (scripted_env (\<lambda>i. ok_response (example_page 17 ''a'')) FsOk)
               ''x'' (Some ''out.json'') 3 2000 fresh_world)) =
      full_params ''x'' 2000 # rest)"
  using page_size_ceiling [of 2001 "scripted_env (\<lambda>i. ok_response (example_page 17 ''a'')) FsOk"
          "''x''" "Some ''out.json''" 3 fresh_world]
        page_size_ceiling [of 2001 "scripted_env (\<lambda>i. ok_response (example_page 17 ''a'')) FsOk"
          "''x''" None 3 fresh_world]
        page_size_ceiling [of 2000 "scripted_env (\<lambda>i. ok_response (example_page 17 ''a'')) FsOk"
          "''x''" "Some ''out.json''" 3 fresh_world]
  by (simp add: fresh_world_def)

section \<open>Dry-run mode\<close>



section \<open>A timeout on the first page\<close>

text \<open>
  Claim C10.  In a full harvest, when the retrying transport call for the first page
  ends in a timeout-class exception, \<^verbatim>\<open>harvest_highlights\<close> raises that exception: the
  page is requested once and not again, nothing sleeps after the transport call
  returns, no directory is created and no file is written.  The consecutive-timeout
  policy is not applied to the first request.
\<close>

theorem first_page_timeout_is_hard_failure:
  assumes "max_num_rows \<le> 2000"
    and "make_solr_query E (full_params q max_num_rows) (logger HarvestingFirstPage w) = (Inl e, wa)"
    and "is_Timeout e"
  shows "fst (harvest_highlights E q (Some path) N max_num_rows w) = Inl e \<and>
         http_gets (snd (harvest_highlights E q (Some path) N max_num_rows w)) = http_gets wa \<and>
         slept (snd (harvest_highlights E q (Some path) N max_num_rows w)) = slept wa \<and>
         page_requests (snd (harvest_highlights E q (Some path) N max_num_rows w)) =
           page_requests w @ [full_params q max_num_rows] \<and>
         files (snd (harvest_highlights E q (Some path) N max_num_rows w)) = files w \<and>
         dumps (snd (harvest_highlights E q (Some path) N max_num_rows w)) = dumps w \<and>
         mkdirs (snd (harvest_highlights E q (Some path) N max_num_rows w)) = mkdirs w"
  using assms make_solr_query_frame [OF assms(2)]
  by (simp add: harvest_highlights_def harvest_try_def)

theorem first_page_timeout_witness:
  "fst (harvest_highlights (scripted_env (\<lambda>i. Raises ReadTimeout) FsOk)
          ''x'' (Some ''out.json'') 3 5 fresh_world) = Inl ReadTimeout \<and>
   map qp_start (http_gets (snd (harvest_highlights (scripted_env (\<lambda>i. Raises ReadTimeout) FsOk)
          ''x'' (Some ''out.json'') 3 5 fresh_world))) = [0, 0, 0, 0, 0] \<and>
   page_requests (snd (harvest_highlights (scripted_env (\<lambda>i. Raises ReadTimeout) FsOk)
          ''x'' (Some ''out.json'') 3 5 fresh_world)) = [full_params ''x'' 5] \<and>
   files (snd (harvest_highlights (scripted_env (\<lambda>i. Raises ReadTimeout) FsOk)
          ''x'' (Some ''out.json'') 3 5 fresh_world)) = Map.empty"
proof -
  let ?E = "scripted_env (\<lambda>i. Raises ReadTimeout) FsOk"
  let ?m = "make_solr_query ?E (full_params ''x'' 5) (logger HarvestingFirstPage fresh_world)"
  have m: "?m = (Inl ReadTimeout, snd ?m)"
    by (simp add: prod_eq_iff run_defs)
  have g: "map qp_start (http_gets (snd ?m)) = [0, 0, 0, 0, 0]"
    by (simp add: run_defs)
  have "(5::int) \<le> 2000" by simp
  from first_page_timeout_is_hard_failure [OF this m, of "''out.json''" 3] g
  show ?thesis by (simp add: fresh_world_def)
qed

section \<open>A failure that is not a timeout\<close>

text \<open>
  Claim C4.  When, at any iteration of the paging loop (whatever the page index, the
  counter and the accumulator are), the retrying transport call raises an exception
  that is not of the timeout class, the loop ends at once with that exception: the
  page is not requested again and nothing sleeps.  And whenever the paging loop of a
  full harvest ends with an exception, \<^verbatim>\<open>harvest_highlights\<close> raises it, the save step
  is skipped: no directory is created and no file is written.
\<close>

theorem non_timeout_failure_aborts_without_saving:
  "(page < N \<and> page * qp_rows qp < T \<and>
    make_solr_query E (qp\<lparr>qp_start := page * qp_rows qp\<rparr>) (logger (HarvestingPage page) w) = (Inl e, wa) \<and>
    \<not> is_Timeout e \<longrightarrow>
      paging_loop E qp N T page ct hl w =
        (Inl e, if is_RequestException e \<or> is_HTTPError e
                then logger (FailedToHarvestPage page e) wa else wa)) \<and>
   (max_num_rows \<le> 2000 \<and>
    make_solr_query E (full_params q max_num_rows) (logger HarvestingFirstPage wi) = (Inr rj, wp) \<and>
    get_numFound rj = Inr Tp \<and> first_page rj = Inr hp \<and>
    fst (paging_loop E (full_params q max_num_rows) N Tp 1 0 hp (logger (FoundMatches Tp) wp)) = Inl ep \<longrightarrow>
      fst (harvest_highlights E q (Some path) N max_num_rows wi) = Inl ep \<and>
      files (snd (harvest_highlights E q (Some path) N max_num_rows wi)) = files wi \<and>
      dumps (snd (harvest_highlights E q (Some path) N max_num_rows wi)) = dumps wi \<and>
      mkdirs (snd (harvest_highlights E q (Some path) N max_num_rows wi)) = mkdirs wi)"
proof (intro conjI impI)
  assume a: "page < N \<and> page * qp_rows qp < T \<and>
    make_solr_query E (qp\<lparr>qp_start := page * qp_rows qp\<rparr>) (logger (HarvestingPage page) w) = (Inl e, wa) \<and>
    \<not> is_Timeout e"
  then have "loop_body E qp page ct hl w =
         Raise e (if is_RequestException e \<or> is_HTTPError e
                  then logger (FailedToHarvestPage page e) wa else wa)"
    by (intro loop_body_hard_failure) simp_all
  with a show "paging_loop E qp N T page ct hl w =
        (Inl e, if is_RequestException e \<or> is_HTTPError e
                then logger (FailedToHarvestPage page e) wa else wa)"
    by (simp add: paging_loop_iterate)
next
  assume a: "max_num_rows \<le> 2000 \<and>
    make_solr_query E (full_params q max_num_rows) (logger HarvestingFirstPage wi) = (Inr rj, wp) \<and>
    get_numFound rj = Inr Tp \<and> first_page rj = Inr hp \<and>
    fst (paging_loop E (full_params q max_num_rows) N Tp 1 0 hp (logger (FoundMatches Tp) wp)) = Inl ep"
  let ?res = "harvest_highlights E q (Some path) N max_num_rows wi"
  obtain wb where l: "paging_loop E (full_params q max_num_rows) N Tp 1 0 hp (logger (FoundMatches Tp) wp) = (Inl ep, wb)"
    using a by (cases "paging_loop E (full_params q max_num_rows) N Tp 1 0 hp (logger (FoundMatches Tp) wp)") auto
  have h: "?res = (Inl ep, logger (HarvestingFailed ep) wb)"
    using a l by (simp add: harvest_after_first_page [of max_num_rows E q wi rj wp Tp hp])
  have f1: "files wp = files wi \<and> dumps wp = dumps wi \<and> mkdirs wp = mkdirs wi"
    using a make_solr_query_frame [of E "full_params q max_num_rows" "logger HarvestingFirstPage wi" "Inr rj" wp]
    by simp
  have f3: "files wb = files wp \<and> dumps wb = dumps wp \<and> mkdirs wb = mkdirs wp"
    using paging_loop_frame [OF l] by simp
  from h f1 f3 show "fst ?res = Inl ep" "files (snd ?res) = files wi"
    "dumps (snd ?res) = dumps wi" "mkdirs (snd ?res) = mkdirs wi"
    by simp_all
qed

theorem non_timeout_failure_witness:
  "fst (paging_loop (scripted_env (\<lambda>i. Raises ConnectionError) FsOk) (full_params ''x'' 5) 3 17 1 0
          Map.empty fresh_world) = Inl ConnectionError \<and>
   fst (harvest_highlights
          (scripted_env (\<lambda>i. if i = 0 then ok_response (example_page 17 ''a'') else Raises ConnectionError) FsOk)
          ''x'' (Some ''out.json'') 3 5 fresh_world) = Inl ConnectionError \<and>
   files (snd (harvest_highlights
          (scripted_env (\<lambda>i. if i = 0 then ok_response (example_page 17 ''a'') else Raises ConnectionError) FsOk)
          ''x'' (Some ''out.json'') 3 5 fresh_world)) = Map.empty \<and>
   dumps (snd (harvest_highlights
          (scripted_env (\<lambda>i. if i = 0 then ok_response (example_page 17 ''a'') else Raises ConnectionError) FsOk)
          ''x'' (Some ''out.json'') 3 5 fresh_world)) = []"
proof -
  let ?E1 = "scripted_env (\<lambda>i. Raises ConnectionError) FsOk"
  let ?E = "scripted_env (\<lambda>i. if i = 0 then ok_response (example_page 17 ''a'') else Raises ConnectionError) FsOk"
  let ?qp = "full_params ''x'' 5"
  let ?m1 = "make_solr_query ?E1 (?qp\<lparr>qp_start := 1 * qp_rows ?qp\<rparr>) (logger (HarvestingPage 1) fresh_world)"
  have m1: "?m1 = (Inl ConnectionError, snd ?m1)"
    by (simp add: prod_eq_iff run_defs)
  have c1: "(1::int) < 3 \<and> 1 * qp_rows ?qp < 17 \<and> ?m1 = (Inl ConnectionError, snd ?m1) \<and>
            \<not> is_Timeout ConnectionError"
    using m1 by (simp add: full_params_def)
  have p1: "fst (paging_loop ?E1 ?qp 3 17 1 0 Map.empty fresh_world) = Inl ConnectionError"
    using non_timeout_failure_aborts_without_saving
            [THEN conjunct1, rule_format, OF c1, of 0 Map.empty]
    by simp
  let ?m = "make_solr_query ?E ?qp (logger HarvestingFirstPage fresh_world)"
  have m: "?m = (Inr (example_page 17 ''a''), snd ?m)"
    by (simp add: prod_eq_iff run_defs)
  have n: "get_numFound (example_page 17 ''a'') = Inr 17"
    by (simp add: run_defs)
  obtain hp where f: "first_page (example_page 17 ''a'') = Inr hp"
    by (simp add: run_defs)
  have l: "fst (paging_loop ?E ?qp 3 17 1 0 hp (logger (FoundMatches 17) (snd ?m))) = Inl ConnectionError"
    by (simp add: run_defs)
  have c2: "(5::int) \<le> 2000 \<and> ?m = (Inr (example_page 17 ''a''), snd ?m) \<and>
            get_numFound (example_page 17 ''a'') = Inr 17 \<and> first_page (example_page 17 ''a'') = Inr hp \<and>
            fst (paging_loop ?E ?qp 3 17 1 0 hp (logger (FoundMatches 17) (snd ?m))) = Inl ConnectionError"
    using m n f l by simp
  from non_timeout_failure_aborts_without_saving
         [THEN conjunct2, rule_format, OF c2, of "''out.json''"] p1
  show ?thesis by (simp add: fresh_world_def)
qed

section \<open>The save step\<close>

text \<open>
  Claim C6.  In a full harvest whose first page was processed and whose paging loop
  ended without an exception (by its condition or by the break after three consecutive
  timeouts), the accumulator the loop ended with is dumped once to the destination
  path, after the parent directory was created, and the call returns; when the file
  system fails at one of the steps of saving, the \<^verbatim>\<open>IOError\<close> is raised to the caller
  and no dump is completed.
\<close>

theorem saved_once_when_loop_ends:
  assumes "max_num_rows \<le> 2000"
    and "make_solr_query E (full_params q max_num_rows) (logger HarvestingFirstPage w) = (Inr rj, wa)"
    and "get_numFound rj = Inr T" and "first_page rj = Inr ha"
    and "paging_loop E (full_params q max_num_rows) N T 1 0 ha (logger (FoundMatches T) wa) =
           (Inr (hl, ct), wb)"
  shows "(file_system E path = FsOk \<longrightarrow>
            fst (harvest_highlights E q (Some path) N max_num_rows w) = Inr () \<and>
            dumps (snd (harvest_highlights E q (Some path) N max_num_rows w)) = dumps w @ [(path, hl)] \<and>
            files (snd (harvest_highlights E q (Some path) N max_num_rows w)) =
              (files w)(path \<mapsto> Dumped hl) \<and>
            mkdirs (snd (harvest_highlights E q (Some path) N max_num_rows w)) = mkdirs w @ [path]) \<and>
         (file_system E path \<noteq> FsOk \<longrightarrow>
            fst (harvest_highlights E q (Some path) N max_num_rows w) = Inl OSError \<and>
            dumps (snd (harvest_highlights E q (Some path) N max_num_rows w)) = dumps w)"
proof -
  let ?res = "harvest_highlights E q (Some path) N max_num_rows w"
  let ?s = "save_results E path hl ct wb"
  have h: "?res = (case ?s of (Inl e, wc) \<Rightarrow> (Inl e, logger (HarvestingFailed e) wc)
                            | (Inr u, wc) \<Rightarrow> (Inr u, wc))"
    using assms(5) by (simp add: harvest_after_first_page [OF assms(1-4)])
  have f1: "files wa = files w \<and> dumps wa = dumps w \<and> mkdirs wa = mkdirs w"
    using make_solr_query_frame [OF assms(2)] by simp
  have f3: "files wb = files w \<and> dumps wb = dumps w \<and> mkdirs wb = mkdirs w"
    using paging_loop_frame [OF assms(5)] f1 by simp
  show ?thesis
  proof (intro conjI impI)
    assume ok: "file_system E path = FsOk"
    from save_results_ok [OF ok, where hl = hl and ct = ct and w = wb] h f3
    show "fst ?res = Inr ()" "dumps (snd ?res) = dumps w @ [(path, hl)]"
      "files (snd ?res) = (files w)(path \<mapsto> Dumped hl)" "mkdirs (snd ?res) = mkdirs w @ [path]"
      by (cases ?s; cases "fst ?s"; simp)+
  next
    assume bad: "file_system E path \<noteq> FsOk"
    from save_results_fails [OF bad, where hl = hl and ct = ct and w = wb] h f3
    show "fst ?res = Inl OSError" "dumps (snd ?res) = dumps w"
      by (cases ?s; cases "fst ?s"; simp)+
  qed
qed

theorem saved_once_witness:
  "fst (harvest_highlights (scripted_env (\<lambda>i. ok_response (example_page 17 ''a'')) FsOk)
          ''x'' (Some ''out.json'') 3 5 fresh_world) = Inr () \<and>
   (\<exists>hl. dumps (snd (harvest_highlights (scripted_env (\<lambda>i. ok_response (example_page 17 ''a'')) FsOk)
          ''x'' (Some ''out.json'') 3 5 fresh_world)) = [(''out.json'', hl)] \<and>
         files (snd (harvest_highlights (scripted_env (\<lambda>i. ok_response (example_page 17 ''a'')) FsOk)
          ''x'' (Some ''out.json'') 3 5 fresh_world)) = [''out.json'' \<mapsto> Dumped hl]) \<and>
   mkdirs (snd (harvest_highlights (scripted_env (\<lambda>i. ok_response (example_page 17 ''a'')) FsOk)
          ''x'' (Some ''out.json'') 3 5 fresh_world)) = [''out.json''] \<and>
   fst (harvest_highlights (scripted_env (\<lambda>i. ok_response (example_page 17 ''a'')) DumpFails)
          ''x'' (Some ''out.json'') 3 5 fresh_world) = Inl OSError \<and>
   dumps (snd (harvest_highlights (scripted_env (\<lambda>i. ok_response (example_page 17 ''a'')) DumpFails)
          ''x'' (Some ''out.json'') 3 5 fresh_world)) = []"
proof -
  have ok: "fst (harvest_highlights (scripted_env (\<lambda>i. ok_response (example_page 17 ''a'')) fso)
               ''x'' (Some ''out.json'') 3 5 fresh_world) =
              (if fso = FsOk then Inr () else Inl OSError) \<and>
            (\<exists>hl. dumps (snd (harvest_highlights (scripted_env (\<lambda>i. ok_response (example_page 17 ''a'')) fso)
               ''x'' (Some ''out.json'') 3 5 fresh_world)) = (if fso = FsOk then [(''out.json'', hl)] else []) \<and>
               (fso = FsOk \<longrightarrow>
                files (snd (harvest_highlights (scripted_env (\<lambda>i. ok_response (example_page 17 ''a'')) fso)
                 ''x'' (Some ''out.json'') 3 5 fresh_world)) = [''out.json'' \<mapsto> Dumped hl] \<and>
                mkdirs (snd (harvest_highlights (scripted_env (\<lambda>i. ok_response (example_page 17 ''a'')) fso)
                 ''x'' (Some ''out.json'') 3 5 fresh_world)) = [''out.json'']))" for fso
  proof -
    let ?E = "scripted_env (\<lambda>i. ok_response (example_page 17 ''a'')) fso"
    let ?qp = "full_params ''x'' 5"
    let ?m = "make_solr_query ?E ?qp (logger HarvestingFirstPage fresh_world)"
    have le: "(5::int) \<le> 2000" by simp
    have m: "?m = (Inr (example_page 17 ''a''), snd ?m)"
      by (simp add: prod_eq_iff run_defs)
    have n: "get_numFound (example_page 17 ''a'') = Inr 17"
      by (simp add: run_defs)
    obtain hp where f: "first_page (example_page 17 ''a'') = Inr hp"
      by (simp add: run_defs)
    let ?l = "paging_loop ?E ?qp 3 17 1 0 hp (logger (FoundMatches 17) (snd ?m))"
    have "\<exists>hl ct. fst ?l = Inr (hl, ct)"
      by (simp add: run_defs)
    then obtain hl ct where l: "?l = (Inr (hl, ct), snd ?l)"
      by (auto simp: prod_eq_iff)
    have fs: "file_system ?E ''out.json'' = fso"
      by (simp add: scripted_env_def)
    from saved_once_when_loop_ends [OF le m n f l, of "''out.json''"] fs
    show ?thesis by (cases "fso = FsOk") (auto simp: fresh_world_def)
  qed
  from ok [of FsOk] ok [of DumpFails] show ?thesis by auto
qed

section \<open>The consecutive-timeout policy\<close>

text \<open>
  Claim C2.  At an iteration of the paging loop: after a successful page fetch the loop
  goes on with the next page and the counter at zero; after a timeout-class failure
  that brings the counter to less than 3, it sleeps 5 seconds times the new counter and
  goes on with the same page index (hence the same offset) and the same accumulator;
  after one that brings the counter to 3, the loop ends without an exception, with the
  accumulator as it was.  A harvest whose loop ended so saves that accumulator at the
  destination path and returns.
\<close>

theorem consecutive_timeout_policy:
  "(page < N \<and> page * qp_rows qp < T \<and>
    make_solr_query E (qp\<lparr>qp_start := page * qp_rows qp\<rparr>) (logger (HarvestingPage page) w) = (Inr rj, wa) \<and>
    later_page rj hl = Inr hl' \<longrightarrow>
      paging_loop E qp N T page ct hl w =
        paging_loop E qp N T (page + 1) 0 hl' (time_sleep 2 (logger (WaitingBeforeNext 2) wa))) \<and>
   (page < N \<and> page * qp_rows qp < T \<and>
    make_solr_query E (qp\<lparr>qp_start := page * qp_rows qp\<rparr>) (logger (HarvestingPage page) w) = (Inl e, wa) \<and>
    is_Timeout e \<and> ct + 1 < 3 \<longrightarrow>
      paging_loop E qp N T page ct hl w =
        paging_loop E qp N T page (ct + 1) hl
          (time_sleep (5 * (ct + 1)) (logger (WaitingAfterTimeout (5 * (ct + 1)))
             (logger (TimeoutOnPage page (ct + 1)) wa)))) \<and>
   (page < N \<and> page * qp_rows qp < T \<and>
    make_solr_query E (qp\<lparr>qp_start := page * qp_rows qp\<rparr>) (logger (HarvestingPage page) w) = (Inl e, wa) \<and>
    is_Timeout e \<and> 3 \<le> ct + 1 \<longrightarrow>
      paging_loop E qp N T page ct hl w =
        (Inr (hl, ct + 1), logger TooManyTimeouts (logger (TimeoutOnPage page (ct + 1)) wa))) \<and>
   (max_num_rows \<le> 2000 \<and>
    make_solr_query E (full_params q max_num_rows) (logger HarvestingFirstPage wi) = (Inr rp, wp) \<and>
    get_numFound rp = Inr Tp \<and> first_page rp = Inr hp \<and>
    paging_loop E (full_params q max_num_rows) N Tp 1 0 hp (logger (FoundMatches Tp) wp) =
      (Inr (hb, cb), wb) \<and>
    file_system E path = FsOk \<longrightarrow>
      fst (harvest_highlights E q (Some path) N max_num_rows wi) = Inr () \<and>
      files (snd (harvest_highlights E q (Some path) N max_num_rows wi)) path = Some (Dumped hb))"
proof (intro conjI impI)
  assume a: "page < N \<and> page * qp_rows qp < T \<and>
    make_solr_query E (qp\<lparr>qp_start := page * qp_rows qp\<rparr>) (logger (HarvestingPage page) w) = (Inr rj, wa) \<and>
    later_page rj hl = Inr hl'"
  then have "loop_body E qp page ct hl w =
               Continue (page + 1) 0 hl' (time_sleep 2 (logger (WaitingBeforeNext 2) wa))"
    using loop_body_success [where ct = ct] by blast
  with a show "paging_loop E qp N T page ct hl w =
        paging_loop E qp N T (page + 1) 0 hl' (time_sleep 2 (logger (WaitingBeforeNext 2) wa))"
    by (simp add: paging_loop_iterate)
next
  assume a: "page < N \<and> page * qp_rows qp < T \<and>
    make_solr_query E (qp\<lparr>qp_start := page * qp_rows qp\<rparr>) (logger (HarvestingPage page) w) = (Inl e, wa) \<and>
    is_Timeout e \<and> ct + 1 < 3"
  then have "loop_body E qp page ct hl w =
         Continue page (ct + 1) hl
           (time_sleep (5 * (ct + 1)) (logger (WaitingAfterTimeout (5 * (ct + 1)))
              (logger (TimeoutOnPage page (ct + 1)) wa)))"
    using loop_body_timeout_retry [where hl = hl] by blast
  with a show "paging_loop E qp N T page ct hl w =
        paging_loop E qp N T page (ct + 1) hl
          (time_sleep (5 * (ct + 1)) (logger (WaitingAfterTimeout (5 * (ct + 1)))
             (logger (TimeoutOnPage page (ct + 1)) wa)))"
    by (simp add: paging_loop_iterate)
next
  assume a: "page < N \<and> page * qp_rows qp < T \<and>
    make_solr_query E (qp\<lparr>qp_start := page * qp_rows qp\<rparr>) (logger (HarvestingPage page) w) = (Inl e, wa) \<and>
    is_Timeout e \<and> 3 \<le> ct + 1"
  then have "loop_body E qp page ct hl w =
         Break (ct + 1) hl (logger TooManyTimeouts (logger (TimeoutOnPage page (ct + 1)) wa))"
    using loop_body_timeout_break [where hl = hl] by blast
  with a show "paging_loop E qp N T page ct hl w =
        (Inr (hl, ct + 1), logger TooManyTimeouts (logger (TimeoutOnPage page (ct + 1)) wa))"
    by (simp add: paging_loop_iterate)
next
  assume a: "max_num_rows \<le> 2000 \<and>
    make_solr_query E (full_params q max_num_rows) (logger HarvestingFirstPage wi) = (Inr rp, wp) \<and>
    get_numFound rp = Inr Tp \<and> first_page rp = Inr hp \<and>
    paging_loop E (full_params q max_num_rows) N Tp 1 0 hp (logger (FoundMatches Tp) wp) =
      (Inr (hb, cb), wb) \<and>
    file_system E path = FsOk"
  let ?res = "harvest_highlights E q (Some path) N max_num_rows wi"
  let ?s = "save_results E path hb cb wb"
  have h: "?res = (case ?s of (Inl e, wc) \<Rightarrow> (Inl e, logger (HarvestingFailed e) wc)
                            | (Inr u, wc) \<Rightarrow> (Inr u, wc))"
    using a by (simp add: harvest_after_first_page [of max_num_rows E q wi rp wp Tp hp])
  from a have ok: "file_system E path = FsOk" by simp
  from save_results_ok [OF ok, where hl = hb and ct = cb and w = wb] h
  show "fst ?res = Inr ()" "files (snd ?res) path = Some (Dumped hb)"
    by (cases ?s; cases "fst ?s"; simp)+
qed

theorem consecutive_timeout_policy_witness:
  "(\<exists>h. fst (paging_loop (scripted_env (\<lambda>i. ok_response (example_page 17 ''a'')) FsOk)
                (full_params ''x'' 5) 2 17 1 2 Map.empty fresh_world) = Inr (h, 0)) \<and>
   fst (paging_loop (scripted_env (\<lambda>i. Raises ReadTimeout) FsOk)
          (full_params ''x'' 5) 3 17 1 0 Map.empty fresh_world) = Inr (Map.empty, 3) \<and>
   slept (snd (paging_loop (scripted_env (\<lambda>i. Raises ReadTimeout) FsOk)
          (full_params ''x'' 5) 3 17 1 0 Map.empty fresh_world)) =
     [4, 4, 8, 16, 5, 4, 4, 8, 16, 10, 4, 4, 8, 16] \<and>
   map qp_start (page_requests (snd (paging_loop (scripted_env (\<lambda>i. Raises ReadTimeout) FsOk)
          (full_params ''x'' 5) 3 17 1 0 Map.empty fresh_world))) = [5, 5, 5] \<and>
   fst (harvest_highlights
          (scripted_env (\<lambda>i. if i = 0 then ok_response (example_page 17 ''a'') else Raises ReadTimeout) FsOk)
          ''x'' (Some ''out.json'') 3 5 fresh_world) = Inr () \<and>
   (\<exists>h. first_page (example_page 17 ''a'') = Inr h \<and>
        files (snd (harvest_highlights
          (scripted_env (\<lambda>i. if i = 0 then ok_response (example_page 17 ''a'') else Raises ReadTimeout) FsOk)
          ''x'' (Some ''out.json'') 3 5 fresh_world)) ''out.json'' = Some (Dumped h))"
proof -
  let ?qp = "full_params ''x'' 5"
  let ?q1 = "?qp\<lparr>qp_start := 1 * qp_rows ?qp\<rparr>"
  \<comment> \<open>a successful page resets the counter\<close>
  let ?Eo = "scripted_env (\<lambda>i. ok_response (example_page 17 ''a'')) FsOk"
  let ?mo = "make_solr_query ?Eo ?q1 (logger (HarvestingPage 1) fresh_world)"
  obtain h' where lp: "later_page (example_page 17 ''a'') Map.empty = Inr h'"
    by (simp add: run_defs)
  have "(1::int) < 2 \<and> 1 * qp_rows ?qp < 17 \<and> ?mo = (Inr (example_page 17 ''a''), snd ?mo) \<and>
        later_page (example_page 17 ''a'') Map.empty = Inr h'"
    using lp by (simp add: prod_eq_iff run_defs)
  from consecutive_timeout_policy [THEN conjunct1, rule_format, OF this, of 2]
  have "paging_loop ?Eo ?qp 2 17 1 2 Map.empty fresh_world =
          paging_loop ?Eo ?qp 2 17 (1 + 1) 0 h' (time_sleep 2 (logger (WaitingBeforeNext 2) (snd ?mo)))" .
  then have c1: "fst (paging_loop ?Eo ?qp 2 17 1 2 Map.empty fresh_world) = Inr (h', 0)"
    by (simp add: paging_loop_exit)
  \<comment> \<open>three consecutive timeouts: two retries of the same page, then the break\<close>
  let ?E = "scripted_env (\<lambda>i. Raises ReadTimeout) FsOk"
  let ?m1 = "make_solr_query ?E ?q1 (logger (HarvestingPage 1) fresh_world)"
  let ?w1 = "time_sleep 5 (logger (WaitingAfterTimeout 5) (logger (TimeoutOnPage 1 1) (snd ?m1)))"
  let ?m2 = "make_solr_query ?E ?q1 (logger (HarvestingPage 1) ?w1)"
  let ?w2 = "time_sleep 10 (logger (WaitingAfterTimeout 10) (logger (TimeoutOnPage 1 2) (snd ?m2)))"
  let ?m3 = "make_solr_query ?E ?q1 (logger (HarvestingPage 1) ?w2)"
  let ?w3 = "logger TooManyTimeouts (logger (TimeoutOnPage 1 3) (snd ?m3))"
  have "(1::int) < 3 \<and> 1 * qp_rows ?qp < 17 \<and> ?m1 = (Inl ReadTimeout, snd ?m1) \<and>
        is_Timeout ReadTimeout \<and> (0::nat) + 1 < 3"
    by (simp add: prod_eq_iff run_defs)
  from consecutive_timeout_policy [THEN conjunct2, THEN conjunct1, rule_format, OF this, of Map.empty]
  have s1: "paging_loop ?E ?qp 3 17 1 0 Map.empty fresh_world =
              paging_loop ?E ?qp 3 17 1 1 Map.empty ?w1"
    by simp
  have "(1::int) < 3 \<and> 1 * qp_rows ?qp < 17 \<and> ?m2 = (Inl ReadTimeout, snd ?m2) \<and>
        is_Timeout ReadTimeout \<and> (1::nat) + 1 < 3"
    by (simp add: prod_eq_iff run_defs)
  from consecutive_timeout_policy [THEN conjunct2, THEN conjunct1, rule_format, OF this, of Map.empty]
  have s2: "paging_loop ?E ?qp 3 17 1 1 Map.empty ?w1 =
              paging_loop ?E ?qp 3 17 1 2 Map.empty ?w2"
    by (simp add: numeral_2_eq_2)
  have "(1::int) < 3 \<and> 1 * qp_rows ?qp < 17 \<and> ?m3 = (Inl ReadTimeout, snd ?m3) \<and>
        is_Timeout ReadTimeout \<and> (3::nat) \<le> 2 + 1"
    by (simp add: prod_eq_iff run_defs)
  from consecutive_timeout_policy [THEN conjunct2, THEN conjunct2, THEN conjunct1, rule_format, OF this,
         of Map.empty]
  have s3: "paging_loop ?E ?qp 3 17 1 2 Map.empty ?w2 = (Inr (Map.empty, 3), ?w3)"
    by simp
  have all: "paging_loop ?E ?qp 3 17 1 0 Map.empty fresh_world = (Inr (Map.empty, 3), ?w3)"
    by (simp only: s1 s2 s3)
  have c2: "fst (paging_loop ?E ?qp 3 17 1 0 Map.empty fresh_world) = Inr (Map.empty, 3)"
    by (simp only: all fst_conv)
  have "slept ?w3 = [4, 4, 8, 16, 5, 4, 4, 8, 16, 10, 4, 4, 8, 16]"
    by (simp add: run_defs)
  then have c3: "slept (snd (paging_loop ?E ?qp 3 17 1 0 Map.empty fresh_world)) =
                   [4, 4, 8, 16, 5, 4, 4, 8, 16, 10, 4, 4, 8, 16]"
    by (simp only: all snd_conv)
  have "map qp_start (page_requests ?w3) = [5, 5, 5]"
    by (simp add: run_defs)
  then have c4: "map qp_start (page_requests (snd (paging_loop ?E ?qp 3 17 1 0 Map.empty fresh_world))) =
                   [5, 5, 5]"
    by (simp only: all snd_conv)
  \<comment> \<open>the harvest saves what the first page gave\<close>
  let ?Eh = "scripted_env (\<lambda>i. if i = 0 then ok_response (example_page 17 ''a'') else Raises ReadTimeout) FsOk"
  let ?m = "make_solr_query ?Eh ?qp (logger HarvestingFirstPage fresh_world)"
  obtain hp where f: "first_page (example_page 17 ''a'') = Inr hp"
    by (simp add: run_defs)
  let ?l = "paging_loop ?Eh ?qp 3 17 1 0 hp (logger (FoundMatches 17) (snd ?m))"
  have l: "fst ?l = Inr (hp, 3)"
    by (simp add: run_defs)
  have "(5::int) \<le> 2000 \<and> ?m = (Inr (example_page 17 ''a''), snd ?m) \<and>
        get_numFound (example_page 17 ''a'') = Inr 17 \<and> first_page (example_page 17 ''a'') = Inr hp \<and>
        ?l = (Inr (hp, 3), snd ?l) \<and> file_system ?Eh ''out.json'' = FsOk"
    using f l by (simp add: prod_eq_iff run_defs)
  from consecutive_timeout_policy [THEN conjunct2, THEN conjunct2, THEN conjunct2, rule_format, OF this] f
  have c5: "fst (harvest_highlights ?Eh ''x'' (Some ''out.json'') 3 5 fresh_world) = Inr () \<and>
        (\<exists>h. first_page (example_page 17 ''a'') = Inr h \<and>
             files (snd (harvest_highlights ?Eh ''x'' (Some ''out.json'') 3 5 fresh_world)) ''out.json'' =
               Some (Dumped h))"
    by simp
  from c1 c2 c3 c4 c5 show ?thesis by blast
qed

section \<open>Termination of the paging loop\<close>

text \<open>
  Claim C7.  The paging loop ends: run with more fuel than three times the pages left
  below the ceiling, the loop with fuel returns the result of \<open>paging_loop\<close>.  It ends
  at once when the page index has reached the ceiling or page index times page size
  has reached the total; an iteration goes back to the condition only with the next
  page and the counter at zero, or with the same page and a counter one higher and
  below 3; it breaks only with the counter at 3 or more.
\<close>

theorem paging_loop_terminates:
  "(3 * nat (N - page) < fuel \<longrightarrow>
      paging_loop_fuel fuel E qp N T page ct hl w = Some (paging_loop E qp N T page ct hl w)) \<and>
   (\<not> (page < N \<and> page * qp_rows qp < T) \<longrightarrow>
      paging_loop E qp N T page ct hl w = (Inr (hl, ct), w)) \<and>
   (loop_body E qp page ct hl w = Continue page' ct' hl' w' \<longrightarrow>
      (page' = page + 1 \<and> ct' = 0) \<or> (page' = page \<and> ct' = ct + 1 \<and> ct' < 3 \<and> hl' = hl)) \<and>
   (loop_body E qp page ct hl w = Break ct' hl' w' \<longrightarrow> ct' = ct + 1 \<and> 3 \<le> ct' \<and> hl' = hl)"
proof (intro conjI impI)
  assume "3 * nat (N - page) < fuel"
  then have "3 * nat (N - page) - min ct 2 < fuel" by simp
  then show "paging_loop_fuel fuel E qp N T page ct hl w = Some (paging_loop E qp N T page ct hl w)"
    by (rule paging_loop_fuel_enough)
next
  assume "\<not> (page < N \<and> page * qp_rows qp < T)"
  then show "paging_loop E qp N T page ct hl w = (Inr (hl, ct), w)"
    by (rule paging_loop_exit)
next
  assume "loop_body E qp page ct hl w = Continue page' ct' hl' w'"
  then show "(page' = page + 1 \<and> ct' = 0) \<or> (page' = page \<and> ct' = ct + 1 \<and> ct' < 3 \<and> hl' = hl)"
    by (rule loop_body_Continue)
next
  assume b: "loop_body E qp page ct hl w = Break ct' hl' w'"
  from loop_body_Break [OF b] show "ct' = ct + 1" "3 \<le> ct'" "hl' = hl" by simp_all
qed

theorem paging_loop_terminates_witness:
  "map_option fst
     (paging_loop_fuel 7 (scripted_env (\<lambda>i. Raises ReadTimeout) FsOk) (full_params ''x'' 5) 3 17 1 0
        Map.empty fresh_world) = Some (Inr (Map.empty, 3)) \<and>
   paging_loop (scripted_env (\<lambda>i. Raises ReadTimeout) FsOk) (full_params ''x'' 5) 3 17 3 0
        Map.empty fresh_world = (Inr (Map.empty, 0), fresh_world)"
proof -
  let ?E = "scripted_env (\<lambda>i. Raises ReadTimeout) FsOk"
  let ?qp = "full_params ''x'' 5"
  have "3 * nat (3 - 1) < (7::nat)" by simp
  with paging_loop_terminates [of 3 1 7 ?E ?qp 17 0 Map.empty fresh_world]
  have a: "paging_loop_fuel 7 ?E ?qp 3 17 1 0 Map.empty fresh_world =
             Some (paging_loop ?E ?qp 3 17 1 0 Map.empty fresh_world)"
    by blast
  have b: "fst (paging_loop ?E ?qp 3 17 1 0 Map.empty fresh_world) = Inr (Map.empty, 3)"
    by (simp add: run_defs)
  have "\<not> ((3::int) < 3 \<and> 3 * qp_rows ?qp < 17)" by simp
  with paging_loop_terminates [of 3 3 7 ?E ?qp 17 0 Map.empty fresh_world]
  have c: "paging_loop ?E ?qp 3 17 3 0 Map.empty fresh_world = (Inr (Map.empty, 0), fresh_world)"
    by blast
  from a b c show ?thesis by simp
qed

section \<open>The accumulator\<close>

lemma doc_ids_simps [simp]:
  "doc_ids [] = {}"
  "doc_ids (d # ds) = (case doc_id d of None \<Rightarrow> {} | Some i \<Rightarrow> {i}) \<union> doc_ids ds"
  by (auto simp: doc_ids_def split: option.splits)























section \<open>The offsets of a harvest\<close>






lemma page_ok_numFound: "page_ok rj \<Longrightarrow> \<exists>T. get_numFound rj = Inr T"
  by (auto simp: page_ok_def get_numFound_def split: option.splits)








end
